theory Spec2Isabelle
  imports Main "HOL-Library.AList"
begin

section \<open>JavaScript values\<close>

text \<open>
  The validation service of sourcify (\<^verbatim>\<open>services/validation/src/ValidationService.ts\<close>)
  works on parsed JSON documents typed \<^verbatim>\<open>any\<close>, on strings and on plain objects used as
  dictionaries. A parsed document is a value of the datatype \<open>json\<close>; the value
  \<^verbatim>\<open>undefined\<close> is \<open>None\<close> of \<open>json option\<close>. An object holds its own enumerable
  properties in enumeration order. A number is kept as its rendering \<^verbatim>\<open>String(n)\<close>, which is
  all the code can observe of it. Strings are lists of 8-bit characters.
\<close>

type_synonym buffer = string

datatype json =
    JNull
  | JBool bool
  | JNum string
  | JStr string
  | JArr "json list"
  | JObj "(string \<times> json) list"

type_synonym jsval = "json option"

text \<open>
  What a call can throw. \<open>IllTyped\<close> is not a JavaScript error: it marks a run in which a
  value that the code annotates as \<^verbatim>\<open>string\<close> (\<^verbatim>\<open>expectedHash: string\<close>,
  \<^verbatim>\<open>PathContent.content\<close>) is a JSON value of another type. Such runs are outside this
  model and no theorem speaks about their result.
\<close>

datatype error = TypeError | SyntaxError | Error string | IllTyped

abbreviation dq :: char where "dq \<equiv> CHR 0x22"
abbreviation bs :: char where "bs \<equiv> CHR 0x5C"
abbreviation LF :: char where "LF \<equiv> CHR 0x0A"
abbreviation CR :: char where "CR \<equiv> CHR 0x0D"

fun digit :: "nat \<Rightarrow> char" where
  "digit n = char_of (48 + n)"

text \<open>Decimal rendering of an array index or a count.\<close>

fun dec :: "nat \<Rightarrow> string" where
  "dec n = (if n < 10 then [digit n] else dec (n div 10) @ [digit (n mod 10)])"

declare dec.simps [simp del]

text \<open>\<^verbatim>\<open>!!v\<close>: the falsy values are undefined, null, false, 0 and the empty string.\<close>

fun truthy :: "jsval \<Rightarrow> bool" where
  "truthy None = False"
| "truthy (Some JNull) = False"
| "truthy (Some (JBool b)) = b"
| "truthy (Some (JNum r)) = (r \<noteq> ''0'')"
| "truthy (Some (JStr s)) = (s \<noteq> [])"
| "truthy (Some (JArr xs)) = True"
| "truthy (Some (JObj kvs)) = True"

text \<open>
  The own enumerable properties of a value, in the order of \<^verbatim>\<open>for (k in v)\<close> and of
  \<^verbatim>\<open>Object.keys(v)\<close>: the properties of an object, the indices of an array or of a
  string, nothing for the other values.
\<close>

fun entries :: "jsval \<Rightarrow> (string \<times> json) list" where
  "entries (Some (JObj kvs)) = kvs"
| "entries (Some (JArr xs)) = zip (map dec [0..<length xs]) xs"
| "entries (Some (JStr s)) = zip (map dec [0..<length s]) (map (\<lambda>c. JStr [c]) s)"
| "entries v = []"

definition for_in :: "jsval \<Rightarrow> string list" where
  "for_in v = map fst (entries v)"

text \<open>\<^verbatim>\<open>v[k]\<close> on a value that is neither null nor undefined.\<close>

definition lookup :: "jsval \<Rightarrow> string \<Rightarrow> jsval" where
  "lookup v k = map_of (entries v) k"

text \<open>\<^verbatim>\<open>v.k\<close>: reading a property of null or undefined throws a TypeError.\<close>

fun getProp :: "jsval \<Rightarrow> string \<Rightarrow> error + jsval" where
  "getProp None k = Inl TypeError"
| "getProp (Some JNull) k = Inl TypeError"
| "getProp v k = Inr (lookup v k)"

text \<open>\<^verbatim>\<open>String(v)\<close>, the conversion that \<^verbatim>\<open>JSON.parse\<close> and template strings apply.\<close>

fun js_String :: "json \<Rightarrow> string"
  and array_join :: "json list \<Rightarrow> string"
  and array_elem :: "json \<Rightarrow> string" where
  "js_String JNull = ''null''"
| "js_String (JBool b) = (if b then ''true'' else ''false'')"
| "js_String (JNum r) = r"
| "js_String (JStr s) = s"
| "js_String (JObj kvs) = ''[object Object]''"
| "js_String (JArr xs) = array_join xs"
| "array_join [] = []"
| "array_join [x] = array_elem x"
| "array_join (x # y # ys) = array_elem x @ '','' @ array_join (y # ys)"
| "array_elem JNull = []"
| "array_elem (JBool b) = js_String (JBool b)"
| "array_elem (JNum r) = js_String (JNum r)"
| "array_elem (JStr s) = js_String (JStr s)"
| "array_elem (JObj kvs) = js_String (JObj kvs)"
| "array_elem (JArr xs) = js_String (JArr xs)"

fun template :: "jsval \<Rightarrow> string" where
  "template None = ''undefined''"
| "template (Some v) = js_String v"

text \<open>\<^verbatim>\<open>xs.join(sep)\<close> on an array of strings.\<close>

fun join :: "string \<Rightarrow> string list \<Rightarrow> string" where
  "join sep [] = []"
| "join sep [x] = x"
| "join sep (x # y # ys) = x @ sep @ join sep (y # ys)"

fun foldE :: "('a \<Rightarrow> 's \<Rightarrow> error + 's) \<Rightarrow> 'a list \<Rightarrow> 's \<Rightarrow> error + 's" where
  "foldE f [] s = Inr s"
| "foldE f (x # xs) s = (case f x s of Inl e \<Rightarrow> Inl e | Inr s' \<Rightarrow> foldE f xs s')"

section \<open>String operations and the regular expressions\<close>

definition starts_with :: "string \<Rightarrow> string \<Rightarrow> bool" where
  "starts_with p s = (take (length p) s = p)"

fun contains :: "string \<Rightarrow> string \<Rightarrow> bool" where
  "contains p [] = (p = [])"
| "contains p (c # cs) = (starts_with p (c # cs) \<or> contains p cs)"

text \<open>\<^verbatim>\<open>/"hh-sol-build-info-1"/\<close>\<close>

definition HARDHAT_OUTPUT_FORMAT :: string where
  "HARDHAT_OUTPUT_FORMAT = [dq] @ ''hh-sol-build-info-1'' @ [dq]"

definition isLineTerminator :: "char \<Rightarrow> bool" where
  "isLineTerminator c = (c = LF \<or> c = CR)"

text \<open>
  \<^verbatim>\<open>/"{\\"compiler\\":{\\"version\\".*?},\\"version\\":1}"/\<close>: a fixed prefix, the shortest
  run of characters other than line terminators, a fixed suffix. The match is the leftmost
  one.
\<close>

definition NESTED_PREFIX :: string where
  "NESTED_PREFIX = [dq] @ ''{'' @ [bs, dq] @ ''compiler'' @ [bs, dq] @ '':{'' @ [bs, dq]
     @ ''version'' @ [bs, dq]"

definition NESTED_SUFFIX :: string where
  "NESTED_SUFFIX = ''},'' @ [bs, dq] @ ''version'' @ [bs, dq] @ '':1}'' @ [dq]"

fun lazy_dots :: "string \<Rightarrow> string \<Rightarrow> string option" where
  "lazy_dots sfx [] = (if starts_with sfx [] then Some [] else None)"
| "lazy_dots sfx (c # cs) =
     (if starts_with sfx (c # cs) then Some []
      else if isLineTerminator c then None
      else map_option ((#) c) (lazy_dots sfx cs))"

definition nested_match_at :: "string \<Rightarrow> string option" where
  "nested_match_at s =
     (if starts_with NESTED_PREFIX s
      then map_option (\<lambda>t. NESTED_PREFIX @ t @ NESTED_SUFFIX)
             (lazy_dots NESTED_SUFFIX (drop (length NESTED_PREFIX) s))
      else None)"

fun NESTED_METADATA_match :: "string \<Rightarrow> string option" where
  "NESTED_METADATA_match [] = nested_match_at []"
| "NESTED_METADATA_match (c # cs) =
     (case nested_match_at (c # cs) of
        Some m \<Rightarrow> Some m
      | None \<Rightarrow> NESTED_METADATA_match cs)"

text \<open>
  \<^verbatim>\<open>content.replace(/\r?\n/g, "\r\n")\<close> and \<^verbatim>\<open>content.replace(/\r\n/g, "\n")\<close>.
\<close>

fun toCRLF :: "string \<Rightarrow> string" where
  "toCRLF [] = []"
| "toCRLF [c] = (if c = LF then [CR, LF] else [c])"
| "toCRLF (c # d # cs) =
     (if c = CR \<and> d = LF then CR # LF # toCRLF cs
      else if c = LF then CR # LF # toCRLF (d # cs)
      else c # toCRLF (d # cs))"

fun toLF :: "string \<Rightarrow> string" where
  "toLF [] = []"
| "toLF [c] = [c]"
| "toLF (c # d # cs) =
     (if c = CR \<and> d = LF then LF # toLF cs else c # toLF (d # cs))"

text \<open>
  \<^verbatim>\<open>content.trimEnd()\<close> strips white space and line terminators from the end; among the
  8-bit characters these are TAB, LF, VT, FF, CR, SPACE and NBSP.
\<close>

definition isWhiteSpace :: "char \<Rightarrow> bool" where
  "isWhiteSpace c = (c \<in> {CHR 0x09, LF, CHR 0x0B, CHR 0x0C, CR, CHR 0x20, CHR 0xA0})"

definition trimEnd :: "string \<Rightarrow> string" where
  "trimEnd s = rev (dropWhile isWhiteSpace (rev s))"

definition CONTENT_VARIATORS :: "(string \<Rightarrow> string) list" where
  "CONTENT_VARIATORS = [(\<lambda>content. content), toCRLF, toLF]"

definition ENDING_VARIATORS :: "(string \<Rightarrow> string) list" where
  "ENDING_VARIATORS =
     [(\<lambda>content. content),
      (\<lambda>content. trimEnd content),
      (\<lambda>content. trimEnd content @ [LF]),
      (\<lambda>content. trimEnd content @ [CR, LF]),
      (\<lambda>content. content @ [LF]),
      (\<lambda>content. content @ [CR, LF])]"

section \<open>The platform\<close>

text \<open>
  The file system: what \<^verbatim>\<open>fs.lstatSync\<close>, \<^verbatim>\<open>fs.readdirSync\<close> and
  \<^verbatim>\<open>fs.readFileSync\<close> show of a path. \<open>BrokenLink\<close> is a directory entry for which
  \<^verbatim>\<open>fs.existsSync\<close> is false; \<open>Special\<close> is neither a file nor a directory.
\<close>

datatype fsnode =
    File buffer
  | Directory "(string \<times> fsnode) list"
  | BrokenLink
  | Special

text \<open>What \<^verbatim>\<open>extractAllTo\<close> writes: regular files and directories.\<close>

datatype ztree = ZFile buffer | ZDirectory "(string \<times> ztree) list"

text \<open>
  The library functions that the service calls are parameters of the model:
  \<^item> \<open>JSON_parse\<close>: \<^verbatim>\<open>JSON.parse\<close> on a string, \<open>None\<close> when it throws a SyntaxError;
  \<^item> \<open>keccak256\<close>: \<^verbatim>\<open>Web3.utils.keccak256\<close>;
  \<^item> \<open>toString\<close>: \<^verbatim>\<open>Buffer.toString()\<close>;
  \<^item> \<open>AdmZip\<close>: \<open>None\<close> when \<^verbatim>\<open>new AdmZip(buffer)\<close> throws, otherwise the members that
    \<^verbatim>\<open>extractAllTo\<close> writes into the staging directory, or the error it throws;
  \<^item> \<open>fs\<close>: the node at a path given by the caller, \<open>None\<close> when nothing is there;
  \<^item> \<open>Path_resolve\<close>: \<^verbatim>\<open>Path.resolve\<close>.
\<close>

record platform =
  JSON_parse :: "string \<Rightarrow> json option"
  keccak256 :: "string \<Rightarrow> string"
  toString :: "buffer \<Rightarrow> string"
  AdmZip :: "buffer \<Rightarrow> (error + (string \<times> ztree) list) option"
  fs :: "string \<Rightarrow> fsnode option"
  Path_resolve :: "string \<Rightarrow> string"

section \<open>The data model\<close>

record PathBuffer =
  pb_path :: "string option"
  pb_buffer :: buffer

record PathContent =
  pc_path :: "string option"
  pc_content :: string

record MissingSource =
  ms_keccak256 :: string
  ms_urls :: jsval

record InvalidSource =
  expectedHash :: string
  calculatedHash :: string
  msg :: string

text \<open>
  \<^verbatim>\<open>StringMap\<close>, \<^verbatim>\<open>MissingSources\<close> and \<^verbatim>\<open>InvalidSources\<close> are plain objects used
  as dictionaries: association lists in which \<^verbatim>\<open>obj[k] = v\<close> is \<^const>\<open>AList.update\<close>
  (an existing key keeps its place, a new key goes to the end).
\<close>

type_synonym StringMap = "(string \<times> string) list"
type_synonym MissingSources = "(string \<times> MissingSource) list"
type_synonym InvalidSources = "(string \<times> InvalidSource) list"

definition keys :: "('k \<times> 'v) list \<Rightarrow> 'k set" where
  "keys obj = fst ` set obj"

record RearrangedSources =
  foundSources :: StringMap
  missingSources :: MissingSources
  invalidSources :: InvalidSources
  metadata2provided :: "(string \<times> string option) list"

section \<open>The variation hash index\<close>

definition generateVariations :: "PathContent \<Rightarrow> PathContent list" where
  "generateVariations pathContent =
     (let original = pc_content pathContent;
          variations = concat (map (\<lambda>contentVariator.
             map (\<lambda>endingVariator. endingVariator (contentVariator original)) ENDING_VARIATORS)
             CONTENT_VARIATORS)
      in map (\<lambda>content. \<lparr>pc_path = pc_path pathContent, pc_content = content\<rparr>) variations)"

definition storeByHash :: "platform \<Rightarrow> PathContent list \<Rightarrow> (string \<rightharpoonup> PathContent)" where
  "storeByHash env files =
     fold (\<lambda>pathContent byHash.
        fold (\<lambda>variation m. m(keccak256 env (pc_content variation) \<mapsto> variation))
          (generateVariations pathContent) byHash)
       files Map.empty"

section \<open>The source resolver\<close>

definition DONT_MATCH :: string where
  "DONT_MATCH = ''The keccak256 given in the metadata and the calculated keccak256 of the source content in metadata don'' @ [CHR 0x27] @ ''t match''"

text \<open>One iteration of the loop of \<^verbatim>\<open>rearrangeSources\<close>, for the key \<open>sourcePath\<close>.\<close>

definition rearrangeSource ::
  "platform \<Rightarrow> (string \<rightharpoonup> PathContent) \<Rightarrow> jsval \<Rightarrow> string \<Rightarrow> RearrangedSources
     \<Rightarrow> error + RearrangedSources" where
  "rearrangeSource env byHash sources sourcePath acc =
     (let sourceInfoFromMetadata = lookup sources sourcePath in
      case getProp sourceInfoFromMetadata ''content'' of
        Inl e \<Rightarrow> Inl e
      | Inr content \<Rightarrow>
         (case lookup sourceInfoFromMetadata ''keccak256'' of
            Some (JStr expected) \<Rightarrow>
              if truthy content then
                (case content of
                   Some (JStr c) \<Rightarrow>
                     (let contentHash = keccak256 env c in
                      if contentHash \<noteq> expected then
                        Inr (acc\<lparr>invalidSources := AList.update sourcePath
                               \<lparr>expectedHash = expected, calculatedHash = contentHash,
                                msg = DONT_MATCH\<rparr> (invalidSources acc)\<rparr>)
                      else
                        Inr (acc\<lparr>foundSources := AList.update sourcePath c (foundSources acc)\<rparr>))
                 | _ \<Rightarrow> Inl IllTyped)
              else
                (let missingEntry = \<lparr>ms_keccak256 = expected,
                                     ms_urls = lookup sourceInfoFromMetadata ''urls''\<rparr> in
                 case byHash expected of
                   Some pathContent \<Rightarrow>
                     (let acc' = acc\<lparr>metadata2provided := AList.update sourcePath
                                   (pc_path pathContent) (metadata2provided acc)\<rparr> in
                      if pc_content pathContent \<noteq> [] then
                        Inr (acc'\<lparr>foundSources := AList.update sourcePath
                               (pc_content pathContent) (foundSources acc')\<rparr>)
                      else
                        Inr (acc'\<lparr>missingSources := AList.update sourcePath missingEntry
                               (missingSources acc')\<rparr>))
                 | None \<Rightarrow>
                     Inr (acc\<lparr>missingSources := AList.update sourcePath missingEntry
                            (missingSources acc)\<rparr>))
          | _ \<Rightarrow> Inl IllTyped))"

definition noSources :: RearrangedSources where
  "noSources = \<lparr>foundSources = [], missingSources = [], invalidSources = [],
                metadata2provided = []\<rparr>"

definition rearrangeSources ::
  "platform \<Rightarrow> json \<Rightarrow> (string \<rightharpoonup> PathContent) \<Rightarrow> error + RearrangedSources" where
  "rearrangeSources env metadata byHash =
     (case getProp (Some metadata) ''sources'' of
        Inl e \<Rightarrow> Inl e
      | Inr sources \<Rightarrow>
          foldE (rearrangeSource env byHash sources) (for_in sources) noSources)"


text \<open>
  How the resolver settles a declared source path, read off the metadata and the index
  alone. It is used to state the invariant of the loop.
\<close>

datatype verdict = Found | Missing | Invalid


section \<open>The document classifier\<close>

text \<open>
  \<^verbatim>\<open>isMetadata\<close> reads two properties of the parsed value; on null the read throws.
\<close>

definition isMetadata :: "json \<Rightarrow> error + bool" where
  "isMetadata obj =
     (case getProp (Some obj) ''language'' of
        Inl e \<Rightarrow> Inl e
      | Inr language \<Rightarrow>
         (case getProp (Some obj) ''compiler'' of
            Inl e \<Rightarrow> Inl e
          | Inr compiler \<Rightarrow> Inr (language = Some (JStr ''Solidity'') \<and> truthy compiler)))"

text \<open>
  \<^verbatim>\<open>extractMetadataFromString\<close>: the argument is a string in \<^verbatim>\<open>splitFiles\<close> and any
  truthy value in the build-report path; \<^verbatim>\<open>JSON.parse\<close> converts it with
  \<^verbatim>\<open>String\<close>. Every exception is caught and gives \<^verbatim>\<open>null\<close>.
\<close>

definition extractMetadataFromString :: "platform \<Rightarrow> json \<Rightarrow> json" where
  "extractMetadataFromString env file =
     (case JSON_parse env (js_String file) of
        None \<Rightarrow> JNull
      | Some obj \<Rightarrow>
         (case isMetadata obj of
            Inl e \<Rightarrow> JNull
          | Inr True \<Rightarrow> obj
          | Inr False \<Rightarrow>
             (case JSON_parse env (js_String obj) of
                None \<Rightarrow> JNull
              | Some obj' \<Rightarrow>
                 (case isMetadata obj' of
                    Inl e \<Rightarrow> JNull
                  | Inr True \<Rightarrow> obj'
                  | Inr False \<Rightarrow> JNull))))"

definition assertObjectSize :: "jsval \<Rightarrow> nat \<Rightarrow> error + unit" where
  "assertObjectSize object expectedSize =
     (let err =
        (if \<not> truthy object then ''Cannot assert for '' @ template object @ ''.''
         else let objectSize = length (for_in object) in
           if objectSize \<noteq> expectedSize
           then ''Error in size assertion! Actual size: '' @ dec objectSize
                  @ ''. Expected size: '' @ dec expectedSize @ ''.''
           else [])
      in if err \<noteq> [] then Inl (Error err) else Inr ())"

text \<open>
  The body of the \<^verbatim>\<open>try\<close> block of \<^verbatim>\<open>splitFiles\<close>:
  \<^verbatim>\<open>this.assertObjectSize(metadata.settings.compilationTarget, 1)\<close>.
\<close>

definition assertCompilationTarget :: "json \<Rightarrow> error + unit" where
  "assertCompilationTarget metadata =
     (case getProp (Some metadata) ''settings'' of
        Inl e \<Rightarrow> Inl e
      | Inr settings \<Rightarrow>
         (case getProp settings ''compilationTarget'' of
            Inl e \<Rightarrow> Inl e
          | Inr compilationTarget \<Rightarrow> assertObjectSize compilationTarget 1))"

definition hardhatSource ::
  "jsval \<Rightarrow> string \<Rightarrow> PathContent list \<Rightarrow> error + PathContent list" where
  "hardhatSource hardhatSourceFilesObject path hardhatSourceFiles =
     (case getProp (lookup hardhatSourceFilesObject path) ''content'' of
        Inl e \<Rightarrow> Inl e
      | Inr content \<Rightarrow>
          if truthy content then
            (case content of
               Some (JStr c) \<Rightarrow>
                 Inr (hardhatSourceFiles @ [\<lparr>pc_path = Some path, pc_content = c\<rparr>])
             | _ \<Rightarrow> Inl IllTyped)
          else Inr hardhatSourceFiles)"

definition hardhatContract ::
  "platform \<Rightarrow> jsval \<Rightarrow> string \<Rightarrow> json list \<Rightarrow> error + json list" where
  "hardhatContract env contracts contractName hardhatMetadataFiles =
     (case getProp (lookup contracts contractName) ''metadata'' of
        Inl e \<Rightarrow> Inl e
      | Inr m \<Rightarrow>
         (case m of
            Some metadata \<Rightarrow>
              if truthy m
              then Inr (hardhatMetadataFiles @ [extractMetadataFromString env metadata])
              else Inr hardhatMetadataFiles
          | None \<Rightarrow> Inr hardhatMetadataFiles))"

definition extractHardhatMetadataAndSources ::
  "platform \<Rightarrow> PathContent \<Rightarrow> error + (json list \<times> PathContent list)" where
  "extractHardhatMetadataAndSources env hardhatFile =
     (case JSON_parse env (pc_content hardhatFile) of
        None \<Rightarrow> Inl SyntaxError
      | Some hardhatJson \<Rightarrow>
     (case getProp (Some hardhatJson) ''input'' of
        Inl e \<Rightarrow> Inl e
      | Inr input \<Rightarrow>
     (case getProp input ''sources'' of
        Inl e \<Rightarrow> Inl e
      | Inr hardhatSourceFilesObject \<Rightarrow>
     (case foldE (hardhatSource hardhatSourceFilesObject) (for_in hardhatSourceFilesObject) [] of
        Inl e \<Rightarrow> Inl e
      | Inr hardhatSourceFiles \<Rightarrow>
     (case getProp (Some hardhatJson) ''output'' of
        Inl e \<Rightarrow> Inl e
      | Inr output \<Rightarrow>
     (case getProp output ''contracts'' of
        Inl e \<Rightarrow> Inl e
      | Inr contractsObject \<Rightarrow>
     (case foldE (\<lambda>path. foldE (hardhatContract env (lookup contractsObject path))
                          (for_in (lookup contractsObject path)))
             (for_in contractsObject) [] of
        Inl e \<Rightarrow> Inl e
      | Inr hardhatMetadataFiles \<Rightarrow> Inr (hardhatMetadataFiles, hardhatSourceFiles))))))))"

record splitState =
  st_metadataFiles :: "json list"
  st_sourceFiles :: "PathContent list"
  st_malformedMetadataFiles :: "string option list"

text \<open>The metadata that \<^verbatim>\<open>splitFiles\<close> finds in a file that is not a build report.\<close>

definition findMetadata :: "platform \<Rightarrow> string \<Rightarrow> json" where
  "findMetadata env content =
     (let metadata = extractMetadataFromString env (JStr content) in
      if \<not> truthy (Some metadata) then
        (case NESTED_METADATA_match content of
           Some matchRes \<Rightarrow> extractMetadataFromString env (JStr matchRes)
         | None \<Rightarrow> metadata)
      else metadata)"

text \<open>One iteration of the loop of \<^verbatim>\<open>splitFiles\<close>.\<close>

definition splitFile :: "platform \<Rightarrow> PathContent \<Rightarrow> splitState \<Rightarrow> error + splitState" where
  "splitFile env file st =
     (if contains HARDHAT_OUTPUT_FORMAT (pc_content file) then
        (case extractHardhatMetadataAndSources env file of
           Inl e \<Rightarrow> Inl e
         | Inr (hardhatMetadataFiles, hardhatSourceFiles) \<Rightarrow>
             Inr (st\<lparr>st_sourceFiles := st_sourceFiles st @ hardhatSourceFiles,
                     st_metadataFiles := st_metadataFiles st @ hardhatMetadataFiles\<rparr>))
      else
        (let metadata = findMetadata env (pc_content file) in
         if truthy (Some metadata) then
           (case assertCompilationTarget metadata of
              Inr u \<Rightarrow> Inr (st\<lparr>st_metadataFiles := st_metadataFiles st @ [metadata]\<rparr>)
            | Inl err \<Rightarrow>
                Inr (st\<lparr>st_malformedMetadataFiles := st_malformedMetadataFiles st @ [pc_path file]\<rparr>))
         else Inr (st\<lparr>st_sourceFiles := st_sourceFiles st @ [file]\<rparr>)))"

definition MALFORMED :: string where
  "MALFORMED = ''Malformed settings.compilationTarget in: ''"

definition NOT_FOUND :: string where
  "NOT_FOUND = ''Metadata file not found. Did you include '' @ [dq] @ ''metadata.json'' @ [dq] @ ''?''"

text \<open>\<^verbatim>\<open>Boolean(path)\<close> on a path label that may be undefined.\<close>

fun hasPath :: "string option \<Rightarrow> bool" where
  "hasPath None = False"
| "hasPath (Some p) = (p \<noteq> [])"

definition splitMessage :: "splitState \<Rightarrow> string" where
  "splitMessage st =
     (if st_malformedMetadataFiles st \<noteq> [] then
        MALFORMED @
          (if list_all hasPath (st_malformedMetadataFiles st)
           then join '', '' (map the (st_malformedMetadataFiles st))
           else dec (length (st_malformedMetadataFiles st)) @ '' metadata files'')
      else if st_metadataFiles st = [] then NOT_FOUND
      else [])"

definition splitFiles ::
  "platform \<Rightarrow> PathContent list \<Rightarrow> error + (json list \<times> PathContent list)" where
  "splitFiles env files =
     (case foldE (splitFile env) files
             \<lparr>st_metadataFiles = [], st_sourceFiles = [], st_malformedMetadataFiles = []\<rparr> of
        Inl e \<Rightarrow> Inl e
      | Inr st \<Rightarrow>
          (let msg = splitMessage st in
           if msg \<noteq> [] then Inl (Error msg)
           else Inr (st_metadataFiles st, st_sourceFiles st)))"

section \<open>The archive expander\<close>

definition pathJoin :: "string \<Rightarrow> string \<Rightarrow> string" where
  "pathJoin path nestedName = path @ ''/'' @ nestedName"

text \<open>
  \<^verbatim>\<open>traversePathRecursively\<close> with a worker that reads the file: the result is the list
  of the worker's calls, each with the file read, or the error thrown.
\<close>

fun traversePathRecursively :: "string \<Rightarrow> fsnode \<Rightarrow> error + (string \<times> buffer) list"
  and traverseNested :: "string \<Rightarrow> (string \<times> fsnode) list \<Rightarrow> error + (string \<times> buffer) list"
  where
  "traversePathRecursively path BrokenLink = Inl (Error (''Encountered a nonexistent path: '' @ path))"
| "traversePathRecursively path (File b) = Inr [(path, b)]"
| "traversePathRecursively path Special = Inr []"
| "traversePathRecursively path (Directory es) = traverseNested path es"
| "traverseNested path [] = Inr []"
| "traverseNested path ((nestedName, node) # es) =
     (case traversePathRecursively (pathJoin path nestedName) node of
        Inl e \<Rightarrow> Inl e
      | Inr visited \<Rightarrow>
         (case traverseNested path es of
            Inl e \<Rightarrow> Inl e
          | Inr others \<Rightarrow> Inr (visited @ others)))"

text \<open>The staging directory after \<^verbatim>\<open>extractAllTo\<close>.\<close>

fun staged :: "ztree \<Rightarrow> fsnode"
  and stagedEntries :: "(string \<times> ztree) list \<Rightarrow> (string \<times> fsnode) list" where
  "staged (ZFile b) = File b"
| "staged (ZDirectory es) = Directory (stagedEntries es)"
| "stagedEntries [] = []"
| "stagedEntries ((n, t) # es) = (n, staged t) # stagedEntries es"

definition isZip :: "platform \<Rightarrow> buffer \<Rightarrow> bool" where
  "isZip env file = (AdmZip env file \<noteq> None)"

text \<open>
  \<^verbatim>\<open>unzip\<close>: \<open>timestamp\<close> is the string that \<^verbatim>\<open>Date.now()\<close> and
  \<^verbatim>\<open>Math.random()\<close> give to this call. The files found under the staging directory are
  labelled with their path less the directory's name and one separator. The second
  traversal, which deletes the staging directory, has no part in the result.
\<close>

definition unzip :: "platform \<Rightarrow> string \<Rightarrow> PathBuffer \<Rightarrow> error + PathBuffer list" where
  "unzip env timestamp zippedFile =
     (let tmpDir = ''tmp-unzipped-'' @ timestamp in
      case AdmZip env (pb_buffer zippedFile) of
        None \<Rightarrow> Inl (Error ''Invalid or unsupported zip format'')
      | Some (Inl e) \<Rightarrow> Inl e
      | Some (Inr members) \<Rightarrow>
         (case traversePathRecursively tmpDir (Directory (stagedEntries members)) of
            Inl e \<Rightarrow> Inl e
          | Inr visited \<Rightarrow>
              Inr (map (\<lambda>(filePath, b).
                     \<lparr>pb_path = Some (drop (length tmpDir + 1) filePath), pb_buffer = b\<rparr>)
                   visited)))"

text \<open>
  \<^verbatim>\<open>traverseAndUnzipFiles\<close> iterates over the array \<^verbatim>\<open>files\<close> while \<^verbatim>\<open>unzip\<close>
  appends the members of each archive to that same array, so that they are visited later in
  the same loop. \<open>queue\<close> is the part of the array still to visit, \<open>n\<close> counts the calls
  of \<^verbatim>\<open>unzip\<close>. Archives that go on yielding archives keep the loop running for ever:
  the result is then \<open>None\<close>.
\<close>

partial_function (option) unzipLoop ::
  "platform \<Rightarrow> (nat \<Rightarrow> string) \<Rightarrow> nat \<Rightarrow> PathBuffer list \<Rightarrow> PathBuffer list
     \<Rightarrow> (error + PathBuffer list) option" where
  "unzipLoop env stamp n queue inputFiles =
     (case queue of
        [] \<Rightarrow> Some (Inr inputFiles)
      | file # rest \<Rightarrow>
          if isZip env (pb_buffer file) then
            (case unzip env (stamp n) file of
               Inl e \<Rightarrow> Some (Inl e)
             | Inr members \<Rightarrow> unzipLoop env stamp (Suc n) (rest @ members) inputFiles)
          else unzipLoop env stamp n rest (inputFiles @ [file]))"

declare unzipLoop.simps [code]

definition traverseAndUnzipFiles ::
  "platform \<Rightarrow> (nat \<Rightarrow> string) \<Rightarrow> PathBuffer list \<Rightarrow> (error + PathBuffer list) option" where
  "traverseAndUnzipFiles env stamp files = unzipLoop env stamp 0 files []"

definition parseFiles :: "platform \<Rightarrow> PathBuffer list \<Rightarrow> PathContent list" where
  "parseFiles env unzippedFiles =
     map (\<lambda>pathBuffer. \<lparr>pc_path = pb_path pathBuffer,
                          pc_content = toString env (pb_buffer pathBuffer)\<rparr>) unzippedFiles"

section \<open>Checked contracts\<close>

text \<open>
  Modelled from the spec: the class \<^verbatim>\<open>CheckedContract\<close> of
  \<^verbatim>\<open>@ethereum-sourcify/core\<close>, of which the service uses the constructor, the fields
  \<^verbatim>\<open>metadata\<close>, \<^verbatim>\<open>solidity\<close>, \<^verbatim>\<open>missing\<close> and \<^verbatim>\<open>invalid\<close>, and \<^verbatim>\<open>isValid\<close>. A
  checked contract owns one metadata document, one FoundSources, one MissingSources and one
  InvalidSources; it is valid iff MissingSources and InvalidSources are both empty.
\<close>

record CheckedContract =
  metadata :: json
  solidity :: StringMap
  missing :: MissingSources
  invalid :: InvalidSources

definition isValid :: "CheckedContract \<Rightarrow> bool" where
  "isValid contract = (missing contract = [] \<and> invalid contract = [])"

definition extractUnused :: "PathContent list \<Rightarrow> string option list \<Rightarrow> string option list" where
  "extractUnused inputFiles usedFiles =
     filter (\<lambda>file. file \<notin> set usedFiles) (map pc_path inputFiles)"

text \<open>One iteration of \<^verbatim>\<open>metadataFiles.forEach\<close> in \<^verbatim>\<open>checkFiles\<close>.\<close>

definition checkMetadata ::
  "platform \<Rightarrow> (string \<rightharpoonup> PathContent) \<Rightarrow> json
     \<Rightarrow> CheckedContract list \<times> string option list
     \<Rightarrow> error + (CheckedContract list \<times> string option list)" where
  "checkMetadata env byHash md acc =
     (case rearrangeSources env md byHash of
        Inl e \<Rightarrow> Inl e
      | Inr r \<Rightarrow>
          Inr (fst acc @ [\<lparr>metadata = md, solidity = foundSources r,
                           missing = missingSources r, invalid = invalidSources r\<rparr>],
               snd acc @ map snd (metadata2provided r)))"

text \<open>
  \<^verbatim>\<open>checkFiles\<close> after the archives are expanded. \<open>unused\<close> is the caller's optional
  array; the result holds the checked contracts and the array as the call leaves it.
\<close>

definition checkUnzipped ::
  "platform \<Rightarrow> PathBuffer list \<Rightarrow> string option list option
     \<Rightarrow> error + (CheckedContract list \<times> string option list option)" where
  "checkUnzipped env unzippedFiles unused =
     (case splitFiles env (parseFiles env unzippedFiles) of
        Inl e \<Rightarrow> Inl e
      | Inr (metadataFiles, sourceFiles) \<Rightarrow>
         (let byHash = storeByHash env sourceFiles in
          case foldE (checkMetadata env byHash) metadataFiles ([], []) of
            Inl e \<Rightarrow> Inl e
          | Inr (checkedContracts, usedFiles) \<Rightarrow>
              Inr (checkedContracts,
                   map_option (\<lambda>u. u @ extractUnused sourceFiles usedFiles) unused)))"

definition checkFiles ::
  "platform \<Rightarrow> (nat \<Rightarrow> string) \<Rightarrow> PathBuffer list \<Rightarrow> string option list option
     \<Rightarrow> (error + (CheckedContract list \<times> string option list option)) option" where
  "checkFiles env stamp files unused =
     (case traverseAndUnzipFiles env stamp files of
        None \<Rightarrow> None
      | Some (Inl e) \<Rightarrow> Some (Inl e)
      | Some (Inr unzippedFiles) \<Rightarrow> Some (checkUnzipped env unzippedFiles unused))"

subsection \<open>Widening\<close>

text \<open>\<^verbatim>\<open>pathContentArrayToStringMap\<close>: a file without a path label is keyed by its index.\<close>

fun stringMapFrom :: "nat \<Rightarrow> PathContent list \<Rightarrow> StringMap \<Rightarrow> StringMap" where
  "stringMapFrom i [] stringMapResult = stringMapResult"
| "stringMapFrom i (elem # rest) stringMapResult =
     stringMapFrom (Suc i) rest
       (if hasPath (pc_path elem)
        then AList.update (the (pc_path elem)) (pc_content elem) stringMapResult
        else AList.update (''path-'' @ dec i) (pc_content elem) stringMapResult)"

definition pathContentArrayToStringMap :: "PathContent list \<Rightarrow> StringMap" where
  "pathContentArrayToStringMap pathContentArr = stringMapFrom 0 pathContentArr []"

text \<open>\<^verbatim>\<open>Object.assign(target, source)\<close> on dictionaries.\<close>

definition Object_assign :: "('k \<times> 'v) list \<Rightarrow> ('k \<times> 'v) list \<Rightarrow> ('k \<times> 'v) list" where
  "Object_assign target source = fold (\<lambda>(k, v). AList.update k v) source target"

definition widen :: "platform \<Rightarrow> CheckedContract \<Rightarrow> PathBuffer list \<Rightarrow> error + CheckedContract" where
  "widen env contract unzippedFiles =
     (case splitFiles env (parseFiles env unzippedFiles) of
        Inl e \<Rightarrow> Inl e
      | Inr (metadataFiles, sourceFiles) \<Rightarrow>
          (let stringMapSourceFiles = pathContentArrayToStringMap sourceFiles in
           Inr \<lparr>metadata = metadata contract,
                solidity = Object_assign stringMapSourceFiles (solidity contract),
                missing = missing contract, invalid = invalid contract\<rparr>))"

definition useAllSources ::
  "platform \<Rightarrow> (nat \<Rightarrow> string) \<Rightarrow> CheckedContract \<Rightarrow> PathBuffer list
     \<Rightarrow> (error + CheckedContract) option" where
  "useAllSources env stamp contract files =
     (case traverseAndUnzipFiles env stamp files of
        None \<Rightarrow> None
      | Some (Inl e) \<Rightarrow> Some (Inl e)
      | Some (Inr unzippedFiles) \<Rightarrow> Some (widen env contract unzippedFiles))"

subsection \<open>Paths\<close>





section \<open>A small platform for examples\<close>

text \<open>
  The examples run the service on a few concrete files. \<open>json_quote\<close> is
  \<^verbatim>\<open>JSON.stringify\<close> on a string of printable characters: the text of the JSON string
  that holds it.
\<close>

definition json_quote :: "string \<Rightarrow> string" where
  "json_quote s = [dq] @ concat (map (\<lambda>c. if c = dq \<or> c = bs then [bs, c] else [c]) s) @ [dq]"

text \<open>
  A metadata document with four declared sources: \<^verbatim>\<open>A.sol\<close> without inline content,
  \<^verbatim>\<open>B.sol\<close> with inline content of the declared hash, \<^verbatim>\<open>C.sol\<close> with inline content
  of another hash, \<^verbatim>\<open>D.sol\<close> that no file provides.
\<close>

definition METADATA_text :: string where
  \<open>METADATA_text = ''{"compiler":{"version":"0.8.0"},"language":"Solidity","settings":{"compilationTarget":{"A.sol":"A"}},"sources":{"A.sol":{"keccak256":"0xa1","urls":[]},"B.sol":{"content":"contract B {}","keccak256":"0xb2"},"C.sol":{"content":"contract C {}","keccak256":"0xc3"},"D.sol":{"keccak256":"0xd4","urls":["bzz-raw://d4"]}},"version":1}''\<close>

definition METADATA_sources :: json where
  "METADATA_sources = JObj
     [(''A.sol'', JObj [(''keccak256'', JStr ''0xa1''), (''urls'', JArr [])]),
      (''B.sol'', JObj [(''content'', JStr ''contract B {}''), (''keccak256'', JStr ''0xb2'')]),
      (''C.sol'', JObj [(''content'', JStr ''contract C {}''), (''keccak256'', JStr ''0xc3'')]),
      (''D.sol'', JObj [(''keccak256'', JStr ''0xd4''), (''urls'', JArr [JStr ''bzz-raw://d4''])])]"

definition METADATA_json :: json where
  "METADATA_json = JObj
     [(''compiler'', JObj [(''version'', JStr ''0.8.0'')]),
      (''language'', JStr ''Solidity''),
      (''settings'', JObj [(''compilationTarget'', JObj [(''A.sol'', JStr ''A'')])]),
      (''sources'', METADATA_sources),
      (''version'', JNum ''1'')]"

text \<open>A metadata document without sources.\<close>

definition ONE_TARGET_text :: string where
  \<open>ONE_TARGET_text = ''{"compiler":{"version":"0.8.0"},"language":"Solidity","settings":{"compilationTarget":{"A.sol":"A"}},"sources":{},"version":1}''\<close>

definition ONE_TARGET_json :: json where
  "ONE_TARGET_json = JObj
     [(''compiler'', JObj [(''version'', JStr ''0.8.0'')]),
      (''language'', JStr ''Solidity''),
      (''settings'', JObj [(''compilationTarget'', JObj [(''A.sol'', JStr ''A'')])]),
      (''sources'', JObj []),
      (''version'', JNum ''1'')]"

text \<open>A metadata document with two entries in \<^verbatim>\<open>settings.compilationTarget\<close>.\<close>

definition TWO_TARGETS_text :: string where
  \<open>TWO_TARGETS_text = ''{"compiler":{"version":"0.8.0"},"language":"Solidity","settings":{"compilationTarget":{"A.sol":"A","B.sol":"B"}},"sources":{},"version":1}''\<close>

definition TWO_TARGETS_json :: json where
  "TWO_TARGETS_json = JObj
     [(''compiler'', JObj [(''version'', JStr ''0.8.0'')]),
      (''language'', JStr ''Solidity''),
      (''settings'', JObj [(''compilationTarget'',
          JObj [(''A.sol'', JStr ''A''), (''B.sol'', JStr ''B'')])]),
      (''sources'', JObj []),
      (''version'', JNum ''1'')]"

text \<open>A build report whose only contract carries the document with two targets.\<close>

definition HARDHAT_text :: string where
  \<open>HARDHAT_text = ''{"_format":"hh-sol-build-info-1","input":{"sources":{}},"output":{"contracts":{"A.sol":{"A":{"metadata":'' @ json_quote TWO_TARGETS_text @ ''}}}}}''\<close>

definition HARDHAT_json :: json where
  "HARDHAT_json = JObj
     [(''_format'', JStr ''hh-sol-build-info-1''),
      (''input'', JObj [(''sources'', JObj [])]),
      (''output'', JObj [(''contracts'',
          JObj [(''A.sol'', JObj [(''A'', JObj [(''metadata'', JStr TWO_TARGETS_text)])])])])]"

text \<open>A build artifact that holds the metadata document without sources as a string.\<close>

definition ARTIFACT_text :: string where
  \<open>ARTIFACT_text = ''{"contractName":"A","metadata":'' @ json_quote ONE_TARGET_text @ ''}''\<close>

definition ARTIFACT_json :: json where
  "ARTIFACT_json = JObj [(''contractName'', JStr ''A''), (''metadata'', JStr ONE_TARGET_text)]"

text \<open>A build artifact without metadata.\<close>

definition ABI_text :: string where
  \<open>ABI_text = ''{"contractName":"A","abi":[]}''\<close>

definition ABI_json :: json where
  "ABI_json = JObj [(''contractName'', JStr ''A''), (''abi'', JArr [])]"

definition A_sol :: string where
  "A_sol = ''contract A {}'' @ [CR, LF]"

definition demo_JSON_parse :: "string \<Rightarrow> json option" where
  "demo_JSON_parse s =
     (if s = METADATA_text then Some METADATA_json
      else if s = TWO_TARGETS_text then Some TWO_TARGETS_json
      else if s = ONE_TARGET_text then Some ONE_TARGET_json
      else if s = json_quote ONE_TARGET_text then Some (JStr ONE_TARGET_text)
      else if s = HARDHAT_text then Some HARDHAT_json
      else if s = ARTIFACT_text then Some ARTIFACT_json
      else if s = ABI_text then Some ABI_json
      else if s = json_quote ABI_text then Some (JStr ABI_text)
      else None)"

definition demo_keccak256 :: "string \<Rightarrow> string" where
  "demo_keccak256 s =
     (if s = ''contract A {}'' @ [LF] then ''0xa1''
      else if s = ''contract B {}'' then ''0xb2''
      else ''0x00'')"

definition ARCHIVE :: buffer where
  "ARCHIVE = ''PK-archive''"

definition demo_AdmZip :: "buffer \<Rightarrow> (error + (string \<times> ztree) list) option" where
  "demo_AdmZip b =
     (if b = ARCHIVE
      then Some (Inr [(''metadata.json'', ZFile METADATA_text),
                      (''contracts'', ZDirectory [(''A.sol'', ZFile A_sol)])])
      else None)"

definition demo_fs :: "string \<Rightarrow> fsnode option" where
  "demo_fs p =
     (if p = ''metadata.json'' then Some (File METADATA_text)
      else if p = ''contracts'' then Some (Directory [(''A.sol'', File A_sol)])
      else None)"

definition demo :: platform where
  "demo = \<lparr>JSON_parse = demo_JSON_parse, keccak256 = demo_keccak256, toString = (\<lambda>b. b),
            AdmZip = demo_AdmZip, fs = demo_fs, Path_resolve = (\<lambda>p. ''/repo/'' @ p)\<rparr>"

definition demo_stamp :: "nat \<Rightarrow> string" where
  "demo_stamp n = ''1652274174745-'' @ dec n"

definition demo_files :: "PathBuffer list" where
  "demo_files =
     [\<lparr>pb_path = Some ''/repo/metadata.json'', pb_buffer = METADATA_text\<rparr>,
      \<lparr>pb_path = Some ''/repo/contracts/A.sol'', pb_buffer = A_sol\<rparr>]"


definition demo_resolved :: RearrangedSources where
  "demo_resolved =
     \<lparr>foundSources = [(''A.sol'', ''contract A {}'' @ [LF]), (''B.sol'', ''contract B {}'')],
      missingSources = [(''D.sol'', \<lparr>ms_keccak256 = ''0xd4'',
                                     ms_urls = Some (JArr [JStr ''bzz-raw://d4''])\<rparr>)],
      invalidSources = [(''C.sol'', \<lparr>expectedHash = ''0xc3'', calculatedHash = ''0x00'',
                                     msg = DONT_MATCH\<rparr>)],
      metadata2provided = [(''A.sol'', Some ''/repo/contracts/A.sol'')]\<rparr>"

text \<open>
  The checked contract of the example, files to widen it with (one of them has the path
  of a verified source and another content), and the widened contract.
\<close>

definition demo_contract :: CheckedContract where
  "demo_contract =
     \<lparr>metadata = METADATA_json, solidity = foundSources demo_resolved,
      missing = missingSources demo_resolved, invalid = invalidSources demo_resolved\<rparr>"

definition widening_files :: "PathBuffer list" where
  "widening_files = demo_files @ [\<lparr>pb_path = Some ''A.sol'', pb_buffer = ''contract A { }''\<rparr>]"

definition demo_widened :: CheckedContract where
  "demo_widened =
     \<lparr>metadata = METADATA_json,
      solidity = [(''/repo/contracts/A.sol'', A_sol), (''A.sol'', ''contract A {}'' @ [LF]),
                  (''B.sol'', ''contract B {}'')],
      missing = missingSources demo_resolved, invalid = invalidSources demo_resolved\<rparr>"





text \<open>Files for the examples of the classifier.\<close>

definition report_files :: "PathContent list" where
  "report_files = [\<lparr>pc_path = Some ''build-info.json'', pc_content = HARDHAT_text\<rparr>]"

definition two_targets_files :: "PathContent list" where
  "two_targets_files = [\<lparr>pc_path = Some ''m.json'', pc_content = TWO_TARGETS_text\<rparr>]"

definition artifact_file :: PathContent where
  "artifact_file = \<lparr>pc_path = Some ''A.json'', pc_content = ARTIFACT_text\<rparr>"

definition abi_file :: PathContent where
  "abi_file = \<lparr>pc_path = Some ''A.abi.json'', pc_content = ABI_text\<rparr>"

definition quoted_abi_file :: PathContent where
  "quoted_abi_file = \<lparr>pc_path = Some ''A.abi.txt'', pc_content = json_quote ABI_text\<rparr>"

definition quoted_metadata_file :: PathContent where
  "quoted_metadata_file =
     \<lparr>pc_path = Some ''metadata.txt'', pc_content = json_quote ONE_TARGET_text\<rparr>"

definition noFiles :: splitState where
  "noFiles = \<lparr>st_metadataFiles = [], st_sourceFiles = [], st_malformedMetadataFiles = []\<rparr>"

section \<open>Properties of the source resolver\<close>

lemma keys_update [simp]: "keys (AList.update k v al) = insert k (keys al)"
  by (simp add: keys_def dom_update)






lemma foldE_Cons_Inr:
  assumes "foldE f (x # xs) s = Inr s'"
  obtains mid where "f x s = Inr mid" "foldE f xs mid = Inr s'"
  using assms by (cases "f x s") auto














section \<open>Properties of the variation hash index\<close>




section \<open>Properties of the archive expander\<close>

text \<open>
  Under a directory \<open>d\<close> the traversal of extracted members visits \<open>d\<close> followed by
  paths that do not depend on \<open>d\<close>, and it never throws.
\<close>

lemma traverse_staged:
  "\<exists>rs. \<forall>d. traversePathRecursively d (staged t) = Inr (map (\<lambda>(r, b). (d @ r, b)) rs)"
  "\<exists>rs. \<forall>d. traverseNested d (stagedEntries es) = Inr (map (\<lambda>(r, b). (d @ r, b)) rs)"
proof (induction t and es rule: staged_stagedEntries.induct)
  case (1 b)
  have "\<forall>d. traversePathRecursively d (staged (ZFile b)) = Inr (map (\<lambda>(r, b). (d @ r, b)) [([], b)])"
    by simp
  then show ?case by blast
next
  case (2 es)
  then show ?case by simp
next
  case 3
  have "\<forall>d. traverseNested d (stagedEntries []) = Inr (map (\<lambda>(r, b). (d @ r, b)) [])"
    by simp
  then show ?case by blast
next
  case (4 n t es)
  from 4(1) obtain rs1 where
    a: "\<And>d. traversePathRecursively d (staged t) = Inr (map (\<lambda>(r, b). (d @ r, b)) rs1)"
    by blast
  from 4(2) obtain rs2 where
    b: "\<And>d. traverseNested d (stagedEntries es) = Inr (map (\<lambda>(r, b). (d @ r, b)) rs2)"
    by blast
  have "\<forall>d. traverseNested d (stagedEntries ((n, t) # es))
          = Inr (map (\<lambda>(r, b). (d @ r, b)) (map (\<lambda>(r, b). (''/'' @ n @ r, b)) rs1 @ rs2))"
    by (simp add: a b pathJoin_def case_prod_beta comp_def)
  then show ?case by blast
qed

lemma unzip_stamp: "unzip env timestamp zippedFile = unzip env timestamp' zippedFile"
proof (cases "AdmZip env (pb_buffer zippedFile)")
  case None
  then show ?thesis by (simp add: unzip_def)
next
  case (Some res)
  show ?thesis
  proof (cases res)
    case (Inl e)
    with Some show ?thesis by (simp add: unzip_def)
  next
    case (Inr members)
    from traverse_staged(2) [of members] obtain rs where
      t: "\<And>d. traverseNested d (stagedEntries members) = Inr (map (\<lambda>(r, b). (d @ r, b)) rs)"
      by blast
    have "unzip env ts zippedFile
            = Inr (map (\<lambda>(r, b). \<lparr>pb_path = Some (drop 1 r), pb_buffer = b\<rparr>) rs)" for ts
      using Some Inr by (simp add: unzip_def t case_prod_beta comp_def)
    then show ?thesis by simp
  qed
qed

lemma unzipLoop_stamp_le:
  assumes "unzipLoop env stamp n queue inputFiles = Some y"
  shows "unzipLoop env stamp' n' queue inputFiles = Some y"
  using assms
proof (induction arbitrary: n' rule: unzipLoop.raw_induct [rotated 1, consumes 1])
  case (1 loop env stamp n queue inputFiles y)
  show ?case
  proof (cases queue)
    case Nil
    with 1(2) show ?thesis by (simp add: unzipLoop.simps)
  next
    case (Cons f rest)
    show ?thesis
    proof (cases "isZip env (pb_buffer f)")
      case False
      with 1(2) Cons have "loop env stamp n rest (inputFiles @ [f]) = Some y" by simp
      from 1(1) [OF this] have "unzipLoop env stamp' n' rest (inputFiles @ [f]) = Some y" .
      with False Cons show ?thesis by (subst unzipLoop.simps) simp
    next
      case True
      have u: "unzip env (stamp' n') f = unzip env (stamp n) f" by (rule unzip_stamp)
      show ?thesis
      proof (cases "unzip env (stamp n) f")
        case (Inl e)
        with 1(2) Cons True have y: "y = Inl e" by simp
        from Inl Cons True u show ?thesis unfolding y by (subst unzipLoop.simps) simp
      next
        case (Inr members)
        with 1(2) Cons True have "loop env stamp (Suc n) (rest @ members) inputFiles = Some y"
          by simp
        from 1(1) [OF this]
        have "unzipLoop env stamp' (Suc n') (rest @ members) inputFiles = Some y" .
        with Inr Cons True u show ?thesis by (subst unzipLoop.simps) simp
      qed
    qed
  qed
qed

lemma unzipLoop_stamp:
  "unzipLoop env stamp n queue inputFiles = unzipLoop env stamp' n' queue inputFiles"
proof (cases "unzipLoop env stamp n queue inputFiles")
  case (Some y)
  from unzipLoop_stamp_le [OF this, of stamp' n'] Some show ?thesis by simp
next
  case None
  show ?thesis
  proof (cases "unzipLoop env stamp' n' queue inputFiles")
    case None': None
    with None show ?thesis by simp
  next
    case (Some y)
    from unzipLoop_stamp_le [OF this] None show ?thesis by simp
  qed
qed

lemma traverseAndUnzipFiles_stamp:
  "traverseAndUnzipFiles env stamp files = traverseAndUnzipFiles env stamp' files"
  unfolding traverseAndUnzipFiles_def by (rule unzipLoop_stamp)


section \<open>Properties of the widening operation\<close>

lemma Object_assign_Cons:
  "Object_assign t ((k, v) # s) = Object_assign (AList.update k v t) s"
  by (simp add: Object_assign_def)

lemma Object_assign_append:
  "Object_assign t (a @ b) = Object_assign (Object_assign t a) b"
  by (simp add: Object_assign_def)

lemma Object_assign_distinct:
  "distinct (map fst t) \<Longrightarrow> distinct (map fst (Object_assign t s))"
proof (induction s arbitrary: t)
  case Nil
  then show ?case by (simp add: Object_assign_def)
next
  case (Cons p s)
  obtain k v where p: "p = (k, v)" by (cases p)
  from Cons.prems have "distinct (map fst (AList.update k v t))" by (rule distinct_update)
  from Cons.IH [OF this] show ?case by (simp add: p Object_assign_Cons)
qed

lemma Object_assign_keys_prefix:
  "\<exists>N. map fst (Object_assign t s) = map fst t @ N"
proof (induction s arbitrary: t)
  case Nil
  then show ?case by (simp add: Object_assign_def)
next
  case (Cons p s)
  obtain k v where p: "p = (k, v)" by (cases p)
  from Cons.IH [of "AList.update k v t"] obtain N where
    "map fst (Object_assign (AList.update k v t) s) = map fst (AList.update k v t) @ N"
    by blast
  then show ?case by (simp add: p Object_assign_Cons update_keys)
qed

lemma Object_assign_keys_same:
  "set (map fst s) \<subseteq> set (map fst t) \<Longrightarrow> map fst (Object_assign t s) = map fst t"
proof (induction s arbitrary: t)
  case Nil
  then show ?case by (simp add: Object_assign_def)
next
  case (Cons p s)
  obtain k v where p: "p = (k, v)" by (cases p)
  from Cons.prems have k: "k \<in> set (map fst t)" by (simp add: p)
  then have u: "map fst (AList.update k v t) = map fst t" by (simp add: update_keys)
  from Cons.prems have "set (map fst s) \<subseteq> set (map fst (AList.update k v t))"
    unfolding u by simp
  from Cons.IH [OF this] show ?case by (simp add: p Object_assign_Cons u)
qed

lemma Object_assign_keys_new:
  "distinct (map fst t @ map fst n) \<Longrightarrow> map fst (Object_assign t n) = map fst t @ map fst n"
proof (induction n arbitrary: t)
  case Nil
  then show ?case by (simp add: Object_assign_def)
next
  case (Cons p n)
  obtain k v where p: "p = (k, v)" by (cases p)
  from Cons.prems have k: "k \<notin> set (map fst t)" by (auto simp: p)
  then have u: "map fst (AList.update k v t) = map fst t @ [k]" by (simp add: update_keys)
  from Cons.prems have "distinct (map fst (AList.update k v t) @ map fst n)"
    unfolding u by (auto simp: p)
  from Cons.IH [OF this] show ?case by (simp add: p Object_assign_Cons u)
qed

lemma map_of_Object_assign:
  "map_of (Object_assign t s) = map_of t ++ map_of (rev s)"
proof (induction s arbitrary: t)
  case Nil
  then show ?case by (simp add: Object_assign_def)
next
  case (Cons p s)
  obtain k v where p: "p = (k, v)" by (cases p)
  have "map_of (Object_assign t (p # s)) = (map_of t)(k \<mapsto> v) ++ map_of (rev s)"
    by (simp only: p Object_assign_Cons Cons.IH update_conv')
  also have "\<dots> = map_of t ++ map_of (rev (p # s))"
    by (rule ext) (simp add: p map_add_def map_of_append split: option.splits)
  finally show ?case .
qed

lemma map_of_rev_distinct:
  "distinct (map fst xs) \<Longrightarrow> map_of (rev xs) = map_of xs"
proof (induction xs)
  case Nil
  then show ?case by simp
next
  case (Cons p xs)
  obtain k v where p: "p = (k, v)" by (cases p)
  from Cons.prems have k: "k \<notin> fst ` set xs" by (simp add: p)
  then have n: "map_of xs k = None" by (simp add: map_of_eq_None_iff)
  from Cons have ih: "map_of (rev xs) = map_of xs" by simp
  show ?case
  proof (rule ext)
    fix x
    show "map_of (rev (p # xs)) x = map_of (p # xs) x"
      using n by (cases "x = k") (simp_all add: p map_of_append map_add_def ih split: option.splits)
  qed
qed

lemma alist_eqI:
  "distinct (map fst xs) \<Longrightarrow> map fst xs = map fst ys \<Longrightarrow> map_of xs = map_of ys \<Longrightarrow> xs = ys"
proof (induction xs arbitrary: ys)
  case Nil
  then show ?case by simp
next
  case (Cons p xs)
  from Cons.prems(2) obtain q ys' where ys: "ys = q # ys'" by (cases ys) auto
  obtain k v where p: "p = (k, v)" by (cases p)
  obtain k' v' where q: "q = (k', v')" by (cases q)
  from Cons.prems(2) have kk: "k' = k" and ks: "map fst xs = map fst ys'" by (simp_all add: ys p q)
  from fun_cong [OF Cons.prems(3), of k] have vv: "v' = v" by (simp add: ys p q kk)
  from Cons.prems(1) have nk: "k \<notin> set (map fst xs)" and d: "distinct (map fst xs)"
    by (simp_all add: p)
  have "map_of xs x = map_of ys' x" for x
  proof (cases "x = k")
    case True
    from nk have "map_of xs k = None" by (simp add: map_of_eq_None_iff)
    moreover from nk ks have "map_of ys' k = None" by (simp add: map_of_eq_None_iff)
    ultimately show ?thesis using True by simp
  next
    case False
    from fun_cong [OF Cons.prems(3), of x] False show ?thesis by (simp add: ys p q kk)
  qed
  then have "map_of xs = map_of ys'" by (rule ext)
  from Cons.IH [OF d ks this] show ?case by (simp add: ys p q kk vv)
qed

lemma Object_assign_idem:
  assumes "distinct (map fst t)"
  shows "Object_assign t (Object_assign t s) = Object_assign t s"
proof -
  let ?r = "Object_assign t s"
  from Object_assign_keys_prefix obtain N where N: "map fst ?r = map fst t @ N" by blast
  have dr: "distinct (map fst ?r)" using assms by (rule Object_assign_distinct)
  define a where "a = take (length t) ?r"
  define b where "b = drop (length t) ?r"
  have r: "?r = a @ b" by (simp add: a_def b_def)
  have ka: "map fst a = map fst t"
    unfolding a_def take_map [symmetric] N by simp
  have kb: "map fst b = N"
    unfolding b_def drop_map [symmetric] N by simp
  have k1: "map fst (Object_assign t a) = map fst t"
    by (rule Object_assign_keys_same) (simp add: ka)
  have "distinct (map fst (Object_assign t a) @ map fst b)"
    unfolding k1 kb using dr N by simp
  then have "map fst (Object_assign (Object_assign t a) b) = map fst (Object_assign t a) @ map fst b"
    by (rule Object_assign_keys_new)
  then have keys: "map fst (Object_assign t ?r) = map fst ?r"
    unfolding k1 kb N [symmetric] by (subst r) (simp only: Object_assign_append)
  have "map_of (Object_assign t ?r) = map_of t ++ map_of ?r"
    by (simp add: map_of_Object_assign map_of_rev_distinct [OF dr])
  also have "\<dots> = map_of ?r"
    unfolding map_of_Object_assign by (rule ext) (simp add: map_add_def split: option.splits)
  finally have maps: "map_of (Object_assign t ?r) = map_of ?r" .
  have d2: "distinct (map fst (Object_assign t ?r))" using assms by (rule Object_assign_distinct)
  from alist_eqI [OF d2 keys maps] show ?thesis .
qed

lemma stringMapFrom_distinct:
  "distinct (map fst m) \<Longrightarrow> distinct (map fst (stringMapFrom i xs m))"
  by (induction xs arbitrary: i m) (simp_all add: distinct_update)

lemma pathContentArrayToStringMap_distinct:
  "distinct (map fst (pathContentArrayToStringMap xs))"
  unfolding pathContentArrayToStringMap_def by (rule stringMapFrom_distinct) simp

lemma useAllSources_Inr:
  assumes "useAllSources env stamp contract files = Some (Inr widened)"
  obtains unzippedFiles mds sourceFiles where
    "traverseAndUnzipFiles env stamp files = Some (Inr unzippedFiles)"
    "splitFiles env (parseFiles env unzippedFiles) = Inr (mds, sourceFiles)"
    "widened = \<lparr>metadata = metadata contract,
                solidity = Object_assign (pathContentArrayToStringMap sourceFiles) (solidity contract),
                missing = missing contract, invalid = invalid contract\<rparr>"
proof -
  from assms obtain unzippedFiles where
    t: "traverseAndUnzipFiles env stamp files = Some (Inr unzippedFiles)"
    and w: "widen env contract unzippedFiles = Inr widened"
    unfolding useAllSources_def by (auto split: option.splits sum.splits)
  from w obtain mds sourceFiles where
    s: "splitFiles env (parseFiles env unzippedFiles) = Inr (mds, sourceFiles)"
    unfolding widen_def by (cases "splitFiles env (parseFiles env unzippedFiles)") auto
  with w have "widened = \<lparr>metadata = metadata contract,
                solidity = Object_assign (pathContentArrayToStringMap sourceFiles) (solidity contract),
                missing = missing contract, invalid = invalid contract\<rparr>"
    unfolding widen_def by (simp add: Let_def)
  with t s show thesis by (rule that)
qed

text \<open>
  C6. Widening never overwrites an entry of the hash-verified FoundSources: where a
  submitted file's path is also a verified source path, the widened contract holds the
  verified content. The metadata, the missing and the invalid sources are kept. Widening
  the result again with the same files gives the same checked contract.
\<close>

theorem useAllSources_keeps_verified:
  assumes "useAllSources env stamp contract files = Some (Inr widened)"
    and "distinct (map fst (solidity contract))"
  shows "(\<forall>k v. map_of (solidity contract) k = Some v \<longrightarrow> map_of (solidity widened) k = Some v)
       \<and> metadata widened = metadata contract
       \<and> missing widened = missing contract
       \<and> invalid widened = invalid contract
       \<and> useAllSources env stamp' widened files = Some (Inr widened)"
proof -
  from assms(1) obtain unzippedFiles mds sourceFiles where
    t: "traverseAndUnzipFiles env stamp files = Some (Inr unzippedFiles)"
    and s: "splitFiles env (parseFiles env unzippedFiles) = Inr (mds, sourceFiles)"
    and w: "widened = \<lparr>metadata = metadata contract,
                solidity = Object_assign (pathContentArrayToStringMap sourceFiles) (solidity contract),
                missing = missing contract, invalid = invalid contract\<rparr>"
    by (rule useAllSources_Inr)
  let ?sm = "pathContentArrayToStringMap sourceFiles"
  have m: "map_of (solidity widened) = map_of ?sm ++ map_of (solidity contract)"
    by (simp add: w map_of_Object_assign map_of_rev_distinct [OF assms(2)])
  have keep: "\<forall>k v. map_of (solidity contract) k = Some v \<longrightarrow> map_of (solidity widened) k = Some v"
    by (simp add: m map_add_def)
  have t': "traverseAndUnzipFiles env stamp' files = Some (Inr unzippedFiles)"
    using t traverseAndUnzipFiles_stamp [of env stamp' files stamp] by simp
  have "Object_assign ?sm (solidity widened) = solidity widened"
    unfolding w using Object_assign_idem [OF pathContentArrayToStringMap_distinct]
    by simp
  then have again: "useAllSources env stamp' widened files = Some (Inr widened)"
    unfolding useAllSources_def widen_def by (simp add: t' s Let_def)
  from keep again show ?thesis by (simp add: w)
qed

lemma demo_widening:
  "useAllSources demo demo_stamp demo_contract widening_files = Some (Inr demo_widened)"
  by code_simp

theorem useAllSources_keeps_verified_witness:
  "useAllSources demo demo_stamp demo_contract widening_files = Some (Inr demo_widened)
   \<and> distinct (map fst (solidity demo_contract))
   \<and> map_of (solidity demo_contract) ''A.sol'' = Some (''contract A {}'' @ [LF])
   \<and> map_of (solidity demo_widened) ''A.sol'' = Some (''contract A {}'' @ [LF])
   \<and> metadata demo_widened = metadata demo_contract
   \<and> missing demo_widened = missing demo_contract
   \<and> invalid demo_widened = invalid demo_contract
   \<and> useAllSources demo demo_stamp demo_widened widening_files = Some (Inr demo_widened)"
proof -
  have d: "distinct (map fst (solidity demo_contract))" by code_simp
  have a: "map_of (solidity demo_contract) ''A.sol'' = Some (''contract A {}'' @ [LF])"
    by code_simp
  from useAllSources_keeps_verified [OF demo_widening d, of demo_stamp] demo_widening d a
  show ?thesis by blast
qed

section \<open>Properties of the document classifier\<close>


lemma MALFORMED_nonempty: "MALFORMED \<noteq> []"
  by (simp add: MALFORMED_def)

lemma splitFile_plain:
  assumes "\<not> contains HARDHAT_OUTPUT_FORMAT (pc_content f)"
    and "\<not> truthy (Some (findMetadata env (pc_content f)))"
  shows "splitFile env f st = Inr (st\<lparr>st_sourceFiles := st_sourceFiles st @ [f]\<rparr>)"
  using assms by (simp add: splitFile_def Let_def)

lemma splitFile_direct:
  assumes "\<not> contains HARDHAT_OUTPUT_FORMAT (pc_content f)"
    and "truthy (Some (findMetadata env (pc_content f)))"
  shows "splitFile env f st =
     (case assertCompilationTarget (findMetadata env (pc_content f)) of
        Inr u \<Rightarrow> Inr (st\<lparr>st_metadataFiles := st_metadataFiles st @ [findMetadata env (pc_content f)]\<rparr>)
      | Inl err \<Rightarrow> Inr (st\<lparr>st_malformedMetadataFiles := st_malformedMetadataFiles st @ [pc_path f]\<rparr>))"
  using assms by (simp add: splitFile_def Let_def)










lemma digit_in: "n < 10 \<Longrightarrow> digit n \<in> set ''0123456789''"
proof -
  assume "n < 10"
  moreover have "\<forall>m \<in> set [0..<10]. digit m \<in> set ''0123456789''" by code_simp
  ultimately show ?thesis by simp
qed

lemma dec_digits: "set (dec n) \<subseteq> set ''0123456789''"
proof (induction n rule: dec.induct)
  case (1 n)
  show ?case
  proof (cases "n < 10")
    case True
    then show ?thesis using digit_in [of n] by (subst dec.simps) simp
  next
    case False
    have "n mod 10 < 10" by simp
    from digit_in [OF this] 1 [OF False] False show ?thesis
      by (subst dec.simps) simp
  qed
qed

lemma index_keys:
  assumes "k \<in> set (map dec ns)"
  shows "set k \<subseteq> set ''0123456789''"
  using assms dec_digits by auto

lemma lookup_JStr_name:
  assumes "\<not> set k \<subseteq> set ''0123456789''"
  shows "lookup (Some (JStr s)) k = None"
proof -
  have "k \<notin> set (map dec [0..<length s])" using assms index_keys by blast
  then have "k \<notin> fst ` set (zip (map dec [0..<length s]) (map (\<lambda>c. JStr [c]) s))"
    by (metis (no_types, lifting) imageE in_set_zipE prod.collapse)
  then show ?thesis by (simp add: lookup_def map_of_eq_None_iff)
qed

lemma isMetadata_JStr: "isMetadata (JStr s) = Inr False"
proof -
  have "lookup (Some (JStr s)) ''language'' = None"
    by (rule lookup_JStr_name) simp
  then show ?thesis by (simp add: isMetadata_def)
qed

lemma isMetadata_iff:
  assumes "obj \<noteq> JNull"
  shows "isMetadata obj = Inr (lookup (Some obj) ''language'' = Some (JStr ''Solidity'')
                               \<and> truthy (lookup (Some obj) ''compiler''))"
  using assms by (cases obj) (simp_all add: isMetadata_def)

lemma lookup_Some_not_null: "lookup (Some obj) k = Some x \<Longrightarrow> obj \<noteq> JNull"
  by (auto simp: lookup_def)

lemma lookup_name_truthy:
  assumes "lookup (Some obj) ''language'' = Some x"
  shows "truthy (Some obj)"
proof (cases obj)
  case (JStr s)
  have "lookup (Some (JStr s)) ''language'' = None" by (rule lookup_JStr_name) simp
  with assms JStr show ?thesis by simp
qed (use assms in \<open>simp_all add: lookup_def\<close>)

lemma extract_unwrapped:
  assumes "JSON_parse env content = Some (JStr inner)"
    and "JSON_parse env inner = Some obj"
    and "obj \<noteq> JNull"
  shows "extractMetadataFromString env (JStr content) =
           (if lookup (Some obj) ''language'' = Some (JStr ''Solidity'')
               \<and> truthy (lookup (Some obj) ''compiler'') then obj else JNull)"
  using assms
  by (auto simp: extractMetadataFromString_def isMetadata_JStr isMetadata_iff split: bool.splits)

lemma extract_object:
  assumes "JSON_parse env content = Some (JObj kvs)"
    and "JSON_parse env ''[object Object]'' = None"
  shows "extractMetadataFromString env (JStr content) =
           (if lookup (Some (JObj kvs)) ''language'' = Some (JStr ''Solidity'')
               \<and> truthy (lookup (Some (JObj kvs)) ''compiler'') then JObj kvs else JNull)"
  using assms
  by (auto simp: extractMetadataFromString_def isMetadata_iff split: bool.splits)

text \<open>
  C8, as the code has it. Of a file without the build-report marker:
  if its content is a JSON-encoded JSON string of an object with \<^verbatim>\<open>language\<close> equal to
  \<^verbatim>\<open>"Solidity"\<close> and a truthy \<^verbatim>\<open>compiler\<close>, the first parse gives a string, which is not
  metadata, and the second gives the metadata document, which the classifier takes (into
  the metadata files, or into the malformed ones when the size assertion fails);
  if it parses, directly or after one unwrapping, to an object that lacks those fields, and
  the pattern of nested metadata does not match in it, it is classified as a plain source
  file.
\<close>

theorem classify_unwrapped_or_plain:
  assumes "\<not> contains HARDHAT_OUTPUT_FORMAT (pc_content f)"
  shows "(JSON_parse env (pc_content f) = Some (JStr inner)
          \<and> JSON_parse env inner = Some obj
          \<and> lookup (Some obj) ''language'' = Some (JStr ''Solidity'')
          \<and> truthy (lookup (Some obj) ''compiler'')
          \<longrightarrow> isMetadata (JStr inner) = Inr False
              \<and> isMetadata obj = Inr True
              \<and> findMetadata env (pc_content f) = obj
              \<and> splitFile env f st =
                  (case assertCompilationTarget obj of
                     Inr u \<Rightarrow> Inr (st\<lparr>st_metadataFiles := st_metadataFiles st @ [obj]\<rparr>)
                   | Inl err \<Rightarrow> Inr (st\<lparr>st_malformedMetadataFiles :=
                                          st_malformedMetadataFiles st @ [pc_path f]\<rparr>)))
       \<and> (NESTED_METADATA_match (pc_content f) = None
          \<and> \<not> (lookup (Some (JObj kvs)) ''language'' = Some (JStr ''Solidity'')
                \<and> truthy (lookup (Some (JObj kvs)) ''compiler''))
          \<and> (JSON_parse env (pc_content f) = Some (JObj kvs)
                \<and> JSON_parse env ''[object Object]'' = None
              \<or> (\<exists>inner'. JSON_parse env (pc_content f) = Some (JStr inner')
                    \<and> JSON_parse env inner' = Some (JObj kvs)))
          \<longrightarrow> splitFile env f st = Inr (st\<lparr>st_sourceFiles := st_sourceFiles st @ [f]\<rparr>))"
proof (intro conjI impI)
  assume a: "JSON_parse env (pc_content f) = Some (JStr inner)
          \<and> JSON_parse env inner = Some obj
          \<and> lookup (Some obj) ''language'' = Some (JStr ''Solidity'')
          \<and> truthy (lookup (Some obj) ''compiler'')"
  then have nn: "obj \<noteq> JNull" using lookup_Some_not_null by blast
  from a nn have e: "extractMetadataFromString env (JStr (pc_content f)) = obj"
    by (simp add: extract_unwrapped)
  from a have "lookup (Some obj) ''language'' = Some (JStr ''Solidity'')" by simp
  then have t: "truthy (Some obj)" by (rule lookup_name_truthy)
  show "isMetadata (JStr inner) = Inr False" by (rule isMetadata_JStr)
  show "isMetadata obj = Inr True" using a nn by (simp add: isMetadata_iff)
  show f: "findMetadata env (pc_content f) = obj"
    using e t by (simp add: findMetadata_def Let_def)
  show "splitFile env f st =
      (case assertCompilationTarget obj of
         Inr u \<Rightarrow> Inr (st\<lparr>st_metadataFiles := st_metadataFiles st @ [obj]\<rparr>)
       | Inl err \<Rightarrow> Inr (st\<lparr>st_malformedMetadataFiles :=
                              st_malformedMetadataFiles st @ [pc_path f]\<rparr>))"
  proof -
    have "truthy (Some (findMetadata env (pc_content f)))" using t f by simp
    from splitFile_direct [OF assms this, of st] show ?thesis unfolding f .
  qed
next
  assume b: "NESTED_METADATA_match (pc_content f) = None
          \<and> \<not> (lookup (Some (JObj kvs)) ''language'' = Some (JStr ''Solidity'')
                \<and> truthy (lookup (Some (JObj kvs)) ''compiler''))
          \<and> (JSON_parse env (pc_content f) = Some (JObj kvs)
                \<and> JSON_parse env ''[object Object]'' = None
              \<or> (\<exists>inner'. JSON_parse env (pc_content f) = Some (JStr inner')
                    \<and> JSON_parse env inner' = Some (JObj kvs)))"
  then have "extractMetadataFromString env (JStr (pc_content f)) = JNull"
  proof (elim conjE disjE exE)
    assume n: "\<not> (lookup (Some (JObj kvs)) ''language'' = Some (JStr ''Solidity'')
                \<and> truthy (lookup (Some (JObj kvs)) ''compiler''))"
      and "JSON_parse env (pc_content f) = Some (JObj kvs)"
      and "JSON_parse env ''[object Object]'' = None"
    from extract_object [OF this(2,3)] n show ?thesis by simp
  next
    fix inner'
    assume n: "\<not> (lookup (Some (JObj kvs)) ''language'' = Some (JStr ''Solidity'')
                \<and> truthy (lookup (Some (JObj kvs)) ''compiler''))"
      and "JSON_parse env (pc_content f) = Some (JStr inner')"
      and "JSON_parse env inner' = Some (JObj kvs)"
    from extract_unwrapped [OF this(2,3)] n show ?thesis by simp
  qed
  with b have "findMetadata env (pc_content f) = JNull"
    by (simp add: findMetadata_def Let_def)
  then have "\<not> truthy (Some (findMetadata env (pc_content f)))" by simp
  from splitFile_plain [OF assms this]
  show "splitFile env f st = Inr (st\<lparr>st_sourceFiles := st_sourceFiles st @ [f]\<rparr>)" .
qed

subsection \<open>The example files\<close>

lemmas demo_texts = ONE_TARGET_text_def TWO_TARGETS_text_def METADATA_text_def ABI_text_def
  ARTIFACT_text_def HARDHAT_text_def json_quote_def

lemma parse_one_target: "JSON_parse demo ONE_TARGET_text = Some ONE_TARGET_json"
  by (simp add: demo_def demo_JSON_parse_def demo_texts)

lemma parse_quoted_one_target:
  "JSON_parse demo (json_quote ONE_TARGET_text) = Some (JStr ONE_TARGET_text)"
  by (simp add: demo_def demo_JSON_parse_def demo_texts)

lemma parse_two_targets: "JSON_parse demo TWO_TARGETS_text = Some TWO_TARGETS_json"
  by (simp add: demo_def demo_JSON_parse_def demo_texts)

lemma parse_artifact: "JSON_parse demo ARTIFACT_text = Some ARTIFACT_json"
  by (simp add: demo_def demo_JSON_parse_def demo_texts)

lemma parse_report: "JSON_parse demo HARDHAT_text = Some HARDHAT_json"
  by (simp add: demo_def demo_JSON_parse_def demo_texts)

lemma parse_abi: "JSON_parse demo ABI_text = Some ABI_json"
  by (simp add: demo_def demo_JSON_parse_def demo_texts)

lemma parse_quoted_abi: "JSON_parse demo (json_quote ABI_text) = Some (JStr ABI_text)"
  by (simp add: demo_def demo_JSON_parse_def demo_texts)

lemma parse_object_Object: "JSON_parse demo ''[object Object]'' = None"
  by (simp add: demo_def demo_JSON_parse_def demo_texts)

lemmas marker = HARDHAT_OUTPUT_FORMAT_def starts_with_def

lemma no_marker_quoted_one_target:
  "\<not> contains HARDHAT_OUTPUT_FORMAT (json_quote ONE_TARGET_text)"
  by (simp add: marker demo_texts)

lemma no_marker_two_targets: "\<not> contains HARDHAT_OUTPUT_FORMAT TWO_TARGETS_text"
  by (simp add: marker demo_texts)

lemma no_marker_artifact: "\<not> contains HARDHAT_OUTPUT_FORMAT ARTIFACT_text"
  by (simp add: marker demo_texts)

lemma no_marker_abi: "\<not> contains HARDHAT_OUTPUT_FORMAT ABI_text"
  by (simp add: marker demo_texts)

lemma no_marker_quoted_abi: "\<not> contains HARDHAT_OUTPUT_FORMAT (json_quote ABI_text)"
  by (simp add: marker demo_texts)

lemma marker_report: "contains HARDHAT_OUTPUT_FORMAT HARDHAT_text"
  by (simp add: marker demo_texts)

lemmas nested = nested_match_at_def NESTED_PREFIX_def NESTED_SUFFIX_def starts_with_def
  isLineTerminator_def

lemma no_nested_abi: "NESTED_METADATA_match ABI_text = None"
  by (simp add: nested demo_texts)

lemma no_nested_quoted_abi: "NESTED_METADATA_match (json_quote ABI_text) = None"
  by (simp add: nested demo_texts)

lemma nested_artifact: "NESTED_METADATA_match ARTIFACT_text = Some (json_quote ONE_TARGET_text)"
  by (simp add: nested demo_texts)


lemma target_one: "assertCompilationTarget ONE_TARGET_json = Inr ()"
  by code_simp

lemma target_two:
  "assertCompilationTarget TWO_TARGETS_json
     = Inl (Error ''Error in size assertion! Actual size: 2. Expected size: 1.'')"
  by code_simp

lemma find_quoted_one_target: "findMetadata demo (json_quote ONE_TARGET_text) = ONE_TARGET_json"
  by (simp add: findMetadata_def
      extract_unwrapped [OF parse_quoted_one_target parse_one_target] ONE_TARGET_json_def lookup_def)

lemma find_two_targets: "findMetadata demo TWO_TARGETS_text = TWO_TARGETS_json"
proof -
  have "extractMetadataFromString demo (JStr TWO_TARGETS_text) = TWO_TARGETS_json"
    by (simp add: extractMetadataFromString_def parse_two_targets isMetadata_iff
        TWO_TARGETS_json_def lookup_def)
  then show ?thesis by (simp add: findMetadata_def TWO_TARGETS_json_def)
qed

lemma find_artifact: "findMetadata demo ARTIFACT_text = ONE_TARGET_json"
proof -
  have "extractMetadataFromString demo (JStr ARTIFACT_text) = JNull"
    using extract_object [OF _ parse_object_Object, of ARTIFACT_text] parse_artifact
    by (simp add: ARTIFACT_json_def lookup_def)
  moreover have "extractMetadataFromString demo (JStr (json_quote ONE_TARGET_text)) = ONE_TARGET_json"
    by (simp add: extract_unwrapped [OF parse_quoted_one_target parse_one_target]
        ONE_TARGET_json_def lookup_def)
  ultimately show ?thesis by (simp add: findMetadata_def nested_artifact)
qed

theorem classify_unwrapped_or_plain_witness:
  "\<not> contains HARDHAT_OUTPUT_FORMAT (pc_content quoted_metadata_file)
   \<and> JSON_parse demo (pc_content quoted_metadata_file) = Some (JStr ONE_TARGET_text)
   \<and> JSON_parse demo ONE_TARGET_text = Some ONE_TARGET_json
   \<and> lookup (Some ONE_TARGET_json) ''language'' = Some (JStr ''Solidity'')
   \<and> truthy (lookup (Some ONE_TARGET_json) ''compiler'')
   \<and> isMetadata (JStr ONE_TARGET_text) = Inr False
   \<and> findMetadata demo (pc_content quoted_metadata_file) = ONE_TARGET_json
   \<and> splitFile demo quoted_metadata_file noFiles
        = Inr (noFiles\<lparr>st_metadataFiles := [ONE_TARGET_json]\<rparr>)
   \<and> \<not> contains HARDHAT_OUTPUT_FORMAT (pc_content abi_file)
   \<and> NESTED_METADATA_match (pc_content abi_file) = None
   \<and> JSON_parse demo (pc_content abi_file) = Some ABI_json
   \<and> JSON_parse demo ''[object Object]'' = None
   \<and> lookup (Some ABI_json) ''language'' = None
   \<and> splitFile demo abi_file noFiles = Inr (noFiles\<lparr>st_sourceFiles := [abi_file]\<rparr>)
   \<and> \<not> contains HARDHAT_OUTPUT_FORMAT (pc_content quoted_abi_file)
   \<and> NESTED_METADATA_match (pc_content quoted_abi_file) = None
   \<and> JSON_parse demo (pc_content quoted_abi_file) = Some (JStr ABI_text)
   \<and> JSON_parse demo ABI_text = Some ABI_json
   \<and> splitFile demo quoted_abi_file noFiles
        = Inr (noFiles\<lparr>st_sourceFiles := [quoted_abi_file]\<rparr>)"
proof -
  have h1: "\<not> contains HARDHAT_OUTPUT_FORMAT (pc_content quoted_metadata_file)"
    by (simp add: quoted_metadata_file_def no_marker_quoted_one_target)
  have p1: "JSON_parse demo (pc_content quoted_metadata_file) = Some (JStr ONE_TARGET_text)"
    by (simp add: quoted_metadata_file_def parse_quoted_one_target)
  note p2 = parse_one_target
  have l1: "lookup (Some ONE_TARGET_json) ''language'' = Some (JStr ''Solidity'')" by code_simp
  have c1: "truthy (lookup (Some ONE_TARGET_json) ''compiler'')" by code_simp
  from classify_unwrapped_or_plain [where f = quoted_metadata_file and env = demo
      and inner = ONE_TARGET_text and obj = ONE_TARGET_json and st = noFiles, OF h1] p1 p2 l1 c1
  have i1: "isMetadata (JStr ONE_TARGET_text) = Inr False"
    and r1: "findMetadata demo (pc_content quoted_metadata_file) = ONE_TARGET_json"
    and s1: "splitFile demo quoted_metadata_file noFiles =
               (case assertCompilationTarget ONE_TARGET_json of
                  Inr u \<Rightarrow> Inr (noFiles\<lparr>st_metadataFiles := st_metadataFiles noFiles @ [ONE_TARGET_json]\<rparr>)
                | Inl err \<Rightarrow> Inr (noFiles\<lparr>st_malformedMetadataFiles :=
                      st_malformedMetadataFiles noFiles @ [pc_path quoted_metadata_file]\<rparr>))"
    by blast+
  from s1 have t1: "splitFile demo quoted_metadata_file noFiles
        = Inr (noFiles\<lparr>st_metadataFiles := [ONE_TARGET_json]\<rparr>)"
    by (simp add: target_one noFiles_def)
  have h2: "\<not> contains HARDHAT_OUTPUT_FORMAT (pc_content abi_file)"
    by (simp add: abi_file_def no_marker_abi)
  have n2: "NESTED_METADATA_match (pc_content abi_file) = None"
    by (simp add: abi_file_def no_nested_abi)
  have q2: "JSON_parse demo (pc_content abi_file) = Some ABI_json"
    by (simp add: abi_file_def parse_abi)
  note o2 = parse_object_Object
  have k2: "lookup (Some ABI_json) ''language'' = None" by code_simp
  have j: "ABI_json = JObj [(''contractName'', JStr ''A''), (''abi'', JArr [])]"
    by (simp add: ABI_json_def)
  from classify_unwrapped_or_plain [where f = abi_file and env = demo and st = noFiles
      and kvs = "[(''contractName'', JStr ''A''), (''abi'', JArr [])]", OF h2]
    n2 q2 o2 k2
  have t2: "splitFile demo abi_file noFiles = Inr (noFiles\<lparr>st_sourceFiles := [abi_file]\<rparr>)"
    unfolding j by (simp add: noFiles_def)
  have h3: "\<not> contains HARDHAT_OUTPUT_FORMAT (pc_content quoted_abi_file)"
    by (simp add: quoted_abi_file_def no_marker_quoted_abi)
  have n3: "NESTED_METADATA_match (pc_content quoted_abi_file) = None"
    by (simp add: quoted_abi_file_def no_nested_quoted_abi)
  have q3: "JSON_parse demo (pc_content quoted_abi_file) = Some (JStr ABI_text)"
    by (simp add: quoted_abi_file_def parse_quoted_abi)
  note q4 = parse_abi
  from classify_unwrapped_or_plain [where f = quoted_abi_file and env = demo and st = noFiles
      and kvs = "[(''contractName'', JStr ''A''), (''abi'', JArr [])]", OF h3]
    n3 q3 q4 k2
  have t3: "splitFile demo quoted_abi_file noFiles
        = Inr (noFiles\<lparr>st_sourceFiles := [quoted_abi_file]\<rparr>)"
    unfolding j by (simp add: noFiles_def)
  from h1 p1 p2 l1 c1 i1 r1 t1 h2 n2 q2 o2 k2 t2 h3 n3 q3 q4 t3 show ?thesis by blast
qed

text \<open>
  C8 as it is stated fails on the code: a build artifact parses to an object without
  \<^verbatim>\<open>language\<close> and \<^verbatim>\<open>compiler\<close>, and the classifier takes the metadata document
  nested in it as a string; a build report parses to such an object too, and is taken
  apart. Neither is classified as a plain source file.
\<close>

theorem artifact_not_plain_source:
  "JSON_parse demo (pc_content artifact_file) = Some ARTIFACT_json
   \<and> lookup (Some ARTIFACT_json) ''language'' = None
   \<and> lookup (Some ARTIFACT_json) ''compiler'' = None
   \<and> splitFile demo artifact_file noFiles = Inr (noFiles\<lparr>st_metadataFiles := [ONE_TARGET_json]\<rparr>)
   \<and> splitFile demo artifact_file noFiles \<noteq> Inr (noFiles\<lparr>st_sourceFiles := [artifact_file]\<rparr>)"
proof -
  have p: "JSON_parse demo (pc_content artifact_file) = Some ARTIFACT_json"
    by (simp add: artifact_file_def parse_artifact)
  have l: "lookup (Some ARTIFACT_json) ''language'' = None" by code_simp
  have c: "lookup (Some ARTIFACT_json) ''compiler'' = None" by code_simp
  have h: "\<not> contains HARDHAT_OUTPUT_FORMAT (pc_content artifact_file)"
    by (simp add: artifact_file_def no_marker_artifact)
  have f: "findMetadata demo (pc_content artifact_file) = ONE_TARGET_json"
    by (simp add: artifact_file_def find_artifact)
  have t: "truthy (Some (findMetadata demo (pc_content artifact_file)))"
    unfolding f by (simp add: ONE_TARGET_json_def)
  from splitFile_direct [OF h t, of noFiles]
  have s: "splitFile demo artifact_file noFiles = Inr (noFiles\<lparr>st_metadataFiles := [ONE_TARGET_json]\<rparr>)"
    unfolding f by (simp add: target_one noFiles_def)
  have n: "splitFile demo artifact_file noFiles \<noteq> Inr (noFiles\<lparr>st_sourceFiles := [artifact_file]\<rparr>)"
    unfolding s by (simp add: noFiles_def)
  from p l c s n show ?thesis by blast
qed










lemma not_zip:
  "\<not> isZip demo METADATA_text" "\<not> isZip demo A_sol" "\<not> isZip demo HARDHAT_text"
  by (simp_all add: isZip_def demo_def demo_AdmZip_def ARCHIVE_def demo_texts A_sol_def)




section \<open>Properties of checkFiles\<close>








section \<open>The size assertion on the compilation target\<close>

text \<open>
  For the files that are not build reports the classifier asserts the size of
  \<^verbatim>\<open>settings.compilationTarget\<close>: every metadata document it accepts has passed the
  assertion.
\<close>

lemma splitFile_asserted:
  assumes "splitFile env f st = Inr st'"
    and "\<not> contains HARDHAT_OUTPUT_FORMAT (pc_content f)"
    and "\<forall>md \<in> set (st_metadataFiles st). assertCompilationTarget md = Inr ()"
  shows "\<forall>md \<in> set (st_metadataFiles st'). assertCompilationTarget md = Inr ()"
  using assms
  by (auto simp: splitFile_def Let_def split: if_splits sum.splits)

lemma foldE_asserted:
  assumes "foldE (splitFile env) pfs st = Inr st'"
    and "\<forall>f \<in> set pfs. \<not> contains HARDHAT_OUTPUT_FORMAT (pc_content f)"
    and "\<forall>md \<in> set (st_metadataFiles st). assertCompilationTarget md = Inr ()"
  shows "\<forall>md \<in> set (st_metadataFiles st'). assertCompilationTarget md = Inr ()"
  using assms
proof (induction pfs arbitrary: st)
  case Nil
  then show ?case by simp
next
  case (Cons f pfs)
  from Cons.prems(1) obtain mid where s: "splitFile env f st = Inr mid"
    and r: "foldE (splitFile env) pfs mid = Inr st'"
    by (rule foldE_Cons_Inr)
  from Cons.prems(2) have h: "\<not> contains HARDHAT_OUTPUT_FORMAT (pc_content f)"
    and hs: "\<forall>f \<in> set pfs. \<not> contains HARDHAT_OUTPUT_FORMAT (pc_content f)"
    by simp_all
  from splitFile_asserted [OF s h Cons.prems(3)]
  have "\<forall>md \<in> set (st_metadataFiles mid). assertCompilationTarget md = Inr ()" .
  from Cons.IH [OF r hs this] show ?case .
qed

lemma direct_documents_asserted:
  assumes "splitFiles env pfs = Inr (mds, srcs)"
    and "\<forall>f \<in> set pfs. \<not> contains HARDHAT_OUTPUT_FORMAT (pc_content f)"
  shows "\<forall>md \<in> set mds. assertCompilationTarget md = Inr ()"
proof -
  from assms(1) obtain st' where
    f: "foldE (splitFile env) pfs
          \<lparr>st_metadataFiles = [], st_sourceFiles = [], st_malformedMetadataFiles = []\<rparr> = Inr st'"
    and m: "mds = st_metadataFiles st'"
    by (auto simp: splitFiles_def Let_def split: sum.splits if_splits)
  from foldE_asserted [OF f assms(2)] m show ?thesis by simp
qed

lemma find_report_metadata:
  "extractMetadataFromString demo (JStr TWO_TARGETS_text) = TWO_TARGETS_json"
  by (simp add: extractMetadataFromString_def parse_two_targets isMetadata_iff
      TWO_TARGETS_json_def lookup_def)

lemma two_targets_nonempty: "TWO_TARGETS_text \<noteq> []"
  by (simp add: TWO_TARGETS_text_def)

lemma extract_report:
  "extractHardhatMetadataAndSources demo
     \<lparr>pc_path = Some ''build-info.json'', pc_content = HARDHAT_text\<rparr>
   = Inr ([TWO_TARGETS_json], [])"
  by (simp add: extractHardhatMetadataAndSources_def parse_report HARDHAT_json_def
      lookup_def for_in_def hardhatContract_def find_report_metadata two_targets_nonempty)

lemma split_report: "splitFiles demo report_files = Inr ([TWO_TARGETS_json], [])"
  by (simp add: splitFiles_def report_files_def splitFile_def marker_report extract_report
      splitMessage_def)

lemma split_two_targets: "splitFiles demo two_targets_files = Inl (Error (MALFORMED @ ''m.json''))"
proof -
  let ?m = "\<lparr>pc_path = Some ''m.json'', pc_content = TWO_TARGETS_text\<rparr>"
  have t: "truthy (Some TWO_TARGETS_json)" by (simp add: TWO_TARGETS_json_def)
  have "splitFile demo ?m st
          = Inr (st\<lparr>st_malformedMetadataFiles := st_malformedMetadataFiles st @ [Some ''m.json'']\<rparr>)"
    for st
    using splitFile_direct [of ?m demo st]
    by (simp add: no_marker_two_targets find_two_targets target_two t)
  then show ?thesis
    by (simp add: splitFiles_def two_targets_files_def splitMessage_def MALFORMED_nonempty)
qed

lemma resolve_two_targets:
  "rearrangeSources demo TWO_TARGETS_json byHash = Inr noSources"
  by (simp add: rearrangeSources_def TWO_TARGETS_json_def lookup_def for_in_def)

text \<open>
  C4 fails on the code for the documents of a build report: the size of their
  \<^verbatim>\<open>settings.compilationTarget\<close> is not asserted. The report of the example holds a
  document with two targets; the classifier accepts it and \<^verbatim>\<open>checkFiles\<close> returns a
  checked contract for it, while the same document submitted as a file makes the
  classification fail with the error that names the file.
\<close>

theorem report_skips_size_assertion:
  "splitFiles demo report_files = Inr ([TWO_TARGETS_json], [])
   \<and> for_in (lookup (lookup (Some TWO_TARGETS_json) ''settings'') ''compilationTarget'')
        = [''A.sol'', ''B.sol'']
   \<and> assertCompilationTarget TWO_TARGETS_json
        = Inl (Error ''Error in size assertion! Actual size: 2. Expected size: 1.'')
   \<and> checkFiles demo demo_stamp
        [\<lparr>pb_path = Some ''build-info.json'', pb_buffer = HARDHAT_text\<rparr>] None
        = Some (Inr ([\<lparr>metadata = TWO_TARGETS_json, solidity = [], missing = [], invalid = []\<rparr>],
                     None))
   \<and> splitFiles demo two_targets_files = Inl (Error (MALFORMED @ ''m.json''))"
proof -
  have k: "for_in (lookup (lookup (Some TWO_TARGETS_json) ''settings'') ''compilationTarget'')
        = [''A.sol'', ''B.sol'']"
    by code_simp
  have u: "traverseAndUnzipFiles demo demo_stamp
             [\<lparr>pb_path = Some ''build-info.json'', pb_buffer = HARDHAT_text\<rparr>]
           = Some (Inr [\<lparr>pb_path = Some ''build-info.json'', pb_buffer = HARDHAT_text\<rparr>])"
    by (simp add: traverseAndUnzipFiles_def unzipLoop.simps not_zip)
  have p: "parseFiles demo [\<lparr>pb_path = Some ''build-info.json'', pb_buffer = HARDHAT_text\<rparr>]
           = report_files"
    by (simp add: parseFiles_def report_files_def demo_def)
  have c: "checkFiles demo demo_stamp
        [\<lparr>pb_path = Some ''build-info.json'', pb_buffer = HARDHAT_text\<rparr>] None
        = Some (Inr ([\<lparr>metadata = TWO_TARGETS_json, solidity = [], missing = [], invalid = []\<rparr>],
                     None))"
    by (simp add: checkFiles_def u checkUnzipped_def p split_report checkMetadata_def
        resolve_two_targets noSources_def)
  from split_report k target_two c split_two_targets show ?thesis by blast
qed

section \<open>Properties of checkPaths\<close>










end
